theory Spec2Isabelle
  imports Main "HOL-Library.Sublist" "HOL-Library.Multiset"
begin

section \<open>The merge orchestrator of \<^verbatim>\<open>scripts/workflow/merge_all_prs.py\<close>\<close>

text \<open>
  The script drives the \<^verbatim>\<open>gh\<close> and \<^verbatim>\<open>git\<close> command line tools. The embedding keeps
  every function of the script under its own name and makes the outside world explicit:
  \<^item> a \<open>world\<close> carries the wall clock (\<^verbatim>\<open>time.time()\<close>, in whole seconds) and the
    trace of every external command and every \<^verbatim>\<open>time.sleep\<close> issued so far;
  \<^item> a \<open>host\<close> gives the answer of each external command as a function of the world in
    which it is issued, so an answer may depend on the time and on everything done
    before, and how long the command takes.

  The JSON that \<^verbatim>\<open>gh\<close> prints is typed by the \<^verbatim>\<open>--json\<close> field list of the request:
  an object carries the requested fields with the types \<^verbatim>\<open>gh\<close> documents. The three
  outcomes the script tells apart for a JSON command are a non-zero exit code, output
  that \<^verbatim>\<open>json.loads\<close> rejects, and a parsed value.

  Console logging (\<^verbatim>\<open>log\<close>, \<^verbatim>\<open>print\<close>, \<^verbatim>\<open>print_merge_plan\<close>) and the report file of
  \<^verbatim>\<open>generate_report\<close> feed nothing back into the control flow and are left out; the
  \<^verbatim>\<open>--verbose\<close> flag only selects log lines and is left out with them.
\<close>

subsection \<open>Data\<close>

text \<open>One entry of \<^verbatim>\<open>gh pr list --json number,title,headRefName,labels,...\<close>;
  \<open>labels\<close> holds the \<^verbatim>\<open>name\<close> of each label object.\<close>

record pr =
  number :: int
  title :: string
  headRefName :: string
  labels :: "string list"

text \<open>The object of \<^verbatim>\<open>gh pr view --json ...,mergeable,mergeStateStatus,reviewDecision,isDraft,state\<close>.
  \<^verbatim>\<open>get_pr_details\<close> answers the empty dict on failure: that is \<open>None\<close> below.\<close>

record details =
  isDraft :: bool
  state :: string
  mergeStateStatus :: string
  mergeable :: string
  reviewDecision :: string

text \<open>One entry of \<^verbatim>\<open>gh pr checks --json name,state,conclusion\<close>. The script reads
  \<^verbatim>\<open>state\<close> and \<^verbatim>\<open>conclusion\<close> with \<^verbatim>\<open>.get\<close> (absent is \<open>None\<close>) and \<^verbatim>\<open>name\<close> by index.\<close>

record check_run =
  check_name :: string
  check_state :: "string option"
  conclusion :: "string option"

text \<open>One entry of \<^verbatim>\<open>gh run list --json status,conclusion,name\<close>.\<close>

record pipeline_run =
  run_status :: string
  run_conclusion :: string
  run_name :: string

text \<open>The triple \<^verbatim>\<open>(exit_code, stdout, stderr)\<close> of \<^verbatim>\<open>run_gh\<close> and \<^verbatim>\<open>run_git\<close>.\<close>

record proc =
  code :: int
  stdout :: string
  stderr :: string

text \<open>A JSON command: exit code not 0 (with its stderr), \<^verbatim>\<open>JSONDecodeError\<close>, or the value.\<close>

datatype 'a reply = Failed string | Garbled | Parsed 'a

datatype action =
    AuthStatus
  | GitStatus
  | GitFetch
  | PrList string "string option"
  | PrView int
  | PrChecks int
  | PrUpdateBranch int
  | PrMerge int
  | RevParse string
  | RunList string
  | Sleep nat

record world =
  clock :: int
  trace :: "action list"

record host =
  gh_auth_status :: "world \<Rightarrow> proc"
  git_status :: "world \<Rightarrow> proc"
  git_fetch :: "world \<Rightarrow> proc"
  gh_pr_list :: "world \<Rightarrow> string \<Rightarrow> string option \<Rightarrow> pr list reply"
  gh_pr_view :: "world \<Rightarrow> int \<Rightarrow> details reply"
  gh_pr_checks :: "world \<Rightarrow> int \<Rightarrow> check_run list reply"
  gh_pr_update_branch :: "world \<Rightarrow> int \<Rightarrow> proc"
  gh_pr_merge :: "world \<Rightarrow> int \<Rightarrow> proc"
  git_rev_parse :: "world \<Rightarrow> string \<Rightarrow> proc"
  gh_run_list :: "world \<Rightarrow> string \<Rightarrow> pipeline_run list reply"
  took :: "world \<Rightarrow> action \<Rightarrow> nat"

text \<open>The parsed command line (\<^verbatim>\<open>args\<close>): \<^verbatim>\<open>--session\<close> and \<^verbatim>\<open>--limit\<close> are \<^verbatim>\<open>None\<close> when
  not given; \<^verbatim>\<open>--timeout\<close> is in minutes.\<close>

record config =
  label :: string
  session :: "string option"
  base :: string
  limit :: "int option"
  timeout :: int
  dry_run :: bool

subsection \<open>Running a command, sleeping\<close>

text \<open>Issuing a command appends it to the trace and lets its duration pass.\<close>

definition tick :: "host \<Rightarrow> action \<Rightarrow> world \<Rightarrow> world" where
  "tick h a w = w\<lparr>clock := clock w + int (took h w a), trace := trace w @ [a]\<rparr>"

text \<open>\<^verbatim>\<open>time.sleep(d)\<close>: at least \<open>d\<close> seconds pass.\<close>

definition sleep :: "host \<Rightarrow> nat \<Rightarrow> world \<Rightarrow> world" where
  "sleep h d w = w\<lparr>clock := clock w + int d + int (took h w (Sleep d)), trace := trace w @ [Sleep d]\<rparr>"

subsection \<open>Strings\<close>

text \<open>\<^verbatim>\<open>str.lower\<close>, \<^verbatim>\<open>str.strip\<close>, \<^verbatim>\<open>str(int)\<close> and \<^verbatim>\<open>sep.join\<close> on ASCII text.\<close>

definition lower :: "string \<Rightarrow> string" where
  "lower s = map (\<lambda>c. case map_of (zip ''ABCDEFGHIJKLMNOPQRSTUVWXYZ'' ''abcdefghijklmnopqrstuvwxyz'') c of
                        None \<Rightarrow> c | Some l \<Rightarrow> l) s"

definition isspace :: "char \<Rightarrow> bool" where
  "isspace c = (of_char c \<in> {9, 10, 11, 12, 13, 28, 29, 30, 31, 32 :: nat})"

definition strip :: "string \<Rightarrow> string" where
  "strip s = rev (dropWhile isspace (rev (dropWhile isspace s)))"

fun str_nat :: "nat \<Rightarrow> string" where
  "str_nat n = (if n < 10 then [''0123456789'' ! n]
                else str_nat (n div 10) @ [''0123456789'' ! (n mod 10)])"

definition str :: "int \<Rightarrow> string" where
  "str i = (if i < 0 then ''-'' @ str_nat (nat (- i)) else str_nat (nat i))"

fun join :: "string \<Rightarrow> string list \<Rightarrow> string" where
  "join sep [] = []"
| "join sep [x] = x"
| "join sep (x # y # ys) = x @ sep @ join sep (y # ys)"

text \<open>\<^verbatim>\<open>d.get(key, default)\<close> on the details dict, which may be the empty dict.\<close>

definition get_or :: "('a \<Rightarrow> 'b) \<Rightarrow> 'b \<Rightarrow> 'a option \<Rightarrow> 'b" where
  "get_or field dflt d = (case d of None \<Rightarrow> dflt | Some x \<Rightarrow> field x)"

subsection \<open>Preflight helpers (lines 76-91)\<close>

definition check_gh_auth :: "host \<Rightarrow> world \<Rightarrow> bool \<times> world" where
  "check_gh_auth h w = (code (gh_auth_status h w) = 0, tick h AuthStatus w)"

definition check_clean_working_tree :: "host \<Rightarrow> world \<Rightarrow> bool \<times> world" where
  "check_clean_working_tree h w =
     (let r = git_status h w in (code r = 0 \<and> strip (stdout r) = [], tick h GitStatus w))"

definition fetch_origin :: "host \<Rightarrow> world \<Rightarrow> bool \<times> world" where
  "fetch_origin h w = (code (git_fetch h w) = 0, tick h GitFetch w)"

subsection \<open>Discovery (lines 94-143)\<close>

text \<open>\<^verbatim>\<open>--label\<close> is passed only when the label is a non-empty string; the session
  filter applies when \<^verbatim>\<open>session\<close> is truthy; \<^verbatim>\<open>list.sort\<close> is stable, as \<open>sort_key\<close> is.\<close>

definition get_open_prs :: "host \<Rightarrow> string \<Rightarrow> string option \<Rightarrow> string \<Rightarrow> world \<Rightarrow> pr list \<times> world" where
  "get_open_prs h lbl sess bs w =
     (let arg = (if lbl \<noteq> [] then Some lbl else None);
          w1 = tick h (PrList bs arg) w
      in case gh_pr_list h w bs arg of
           Failed err \<Rightarrow> ([], w1)
         | Garbled \<Rightarrow> ([], w1)
         | Parsed prs \<Rightarrow>
             (let prs1 = (case sess of
                            None \<Rightarrow> prs
                          | Some s \<Rightarrow> if s \<noteq> [] then filter (\<lambda>p. list_ex (\<lambda>l. l = s) (labels p)) prs else prs)
              in (sort_key number prs1, w1)))"

definition get_pr_details :: "host \<Rightarrow> int \<Rightarrow> world \<Rightarrow> details option \<times> world" where
  "get_pr_details h pr_number w =
     (case gh_pr_view h w pr_number of
        Failed err \<Rightarrow> (None, tick h (PrView pr_number) w)
      | Garbled \<Rightarrow> (None, tick h (PrView pr_number) w)
      | Parsed d \<Rightarrow> (Some d, tick h (PrView pr_number) w))"

subsection \<open>Check aggregation and polling (lines 146-212)\<close>

definition get_check_status :: "host \<Rightarrow> int \<Rightarrow> world \<Rightarrow> (string \<times> check_run list) \<times> world" where
  "get_check_status h pr_number w =
     (let w1 = tick h (PrChecks pr_number) w
      in case gh_pr_checks h w pr_number of
           Failed err \<Rightarrow> ((''UNKNOWN'', []), w1)
         | Garbled \<Rightarrow> ((''UNKNOWN'', []), w1)
         | Parsed checks \<Rightarrow>
             if checks = [] then ((''SUCCESS'', []), w1)
             else
               (let has_pending = list_ex (\<lambda>c. check_state c = Some ''PENDING'' \<or> check_state c = Some ''IN_PROGRESS'') checks;
                    has_failure = list_ex (\<lambda>c. conclusion c \<in> set [Some ''FAILURE'', Some ''ERROR'', Some ''CANCELLED'', Some ''TIMED_OUT'']) checks
                in if has_failure then ((''FAILURE'', checks), w1)
                   else if has_pending then ((''PENDING'', checks), w1)
                   else ((''SUCCESS'', checks), w1)))"

text \<open>The \<^verbatim>\<open>while True\<close> loop of \<^verbatim>\<open>wait_for_checks\<close>; \<open>start_time\<close> is the clock read before
  the loop, the poll interval is 30 seconds.\<close>

function wait_loop :: "host \<Rightarrow> int \<Rightarrow> int \<Rightarrow> int \<Rightarrow> world \<Rightarrow> (bool \<times> string) \<times> world" where
  "wait_loop h pr_number timeout_minutes start_time w =
     (let elapsed = clock w - start_time;
          timeout_seconds = timeout_minutes * 60
      in if elapsed > timeout_seconds
         then ((False, ''Timeout after '' @ str timeout_minutes @ '' minutes waiting for checks''), w)
         else
           (case get_check_status h pr_number w of
              ((status, checks), w1) \<Rightarrow>
                if status = ''SUCCESS'' then ((True, ''All checks passed''), w1)
                else if status = ''FAILURE''
                then ((False, ''Checks failed: '' @
                        join '', '' (map check_name
                          (filter (\<lambda>c. conclusion c \<in> set [Some ''FAILURE'', Some ''ERROR'']) checks))), w1)
                else wait_loop h pr_number timeout_minutes start_time (sleep h 30 w1)))"
  by pat_completeness auto
termination
  by (relation "measure (\<lambda>(h, n, tm, st, w). nat (st + tm * 60 + 1 - clock w))")
     (auto simp: get_check_status_def tick_def sleep_def Let_def split: reply.splits if_splits)

definition wait_for_checks :: "host \<Rightarrow> int \<Rightarrow> int \<Rightarrow> world \<Rightarrow> (bool \<times> string) \<times> world" where
  "wait_for_checks h pr_number timeout_minutes w = wait_loop h pr_number timeout_minutes (clock w) w"

subsection \<open>Branch update, review gate, merge (lines 215-273)\<close>

definition update_pr_branch :: "host \<Rightarrow> int \<Rightarrow> world \<Rightarrow> (bool \<times> string) \<times> world" where
  "update_pr_branch h pr_number w =
     (let r = gh_pr_update_branch h w pr_number;
          w1 = tick h (PrUpdateBranch pr_number) w
      in if code r = 0 then ((True, ''Branch updated successfully''), w1)
         else if sublist ''conflict'' (lower (stderr r))
         then ((False, ''Merge conflicts detected - manual resolution required''), w1)
         else ((False, ''Failed to update branch: '' @ stderr r), w1))"

definition check_review_approval :: "details option \<Rightarrow> bool \<times> string" where
  "check_review_approval d =
     (let decision = get_or reviewDecision [] d
      in if decision = ''APPROVED'' then (True, ''PR approved'')
         else if decision = ''CHANGES_REQUESTED''
         then (False, ''Changes requested - needs update and re-approval'')
         else if decision = ''REVIEW_REQUIRED''
         then (False, ''Review required - needs approval'')
         else (True, ''No review requirement or already approved''))"

definition merge_pr :: "host \<Rightarrow> int \<Rightarrow> bool \<Rightarrow> world \<Rightarrow> (bool \<times> string) \<times> world" where
  "merge_pr h pr_number dry w =
     (if dry then ((True, ''[DRY RUN] Would merge PR''), w)
      else
        (let r = gh_pr_merge h w pr_number;
             w1 = tick h (PrMerge pr_number) w
         in if code r = 0 then ((True, ''PR merged successfully''), w1)
            else ((False, ''Merge failed: '' @ stderr r), w1)))"

subsection \<open>Trunk health (lines 276-327)\<close>

definition verify_main_health :: "host \<Rightarrow> string \<Rightarrow> world \<Rightarrow> (bool \<times> string) \<times> world" where
  "verify_main_health h bs w =
     (let w1 = snd (fetch_origin h w);
          r = git_rev_parse h w1 (''origin/'' @ bs);
          w2 = tick h (RevParse (''origin/'' @ bs)) w1
      in if code r \<noteq> 0 then ((False, ''Failed to get main HEAD''), w2)
         else
           (let commit_sha = take 7 (strip (stdout r));
                w3 = tick h (RunList bs) w2
            in case gh_run_list h w2 bs of
                 Failed err \<Rightarrow> ((True, ''No CI verification (commit: '' @ commit_sha @ '')''), w3)
               | Garbled \<Rightarrow> ((True, ''Could not parse CI status (commit: '' @ commit_sha @ '')''), w3)
               | Parsed runs \<Rightarrow>
                   (case runs of
                      [] \<Rightarrow> ((True, ''No recent CI runs (commit: '' @ commit_sha @ '')''), w3)
                    | latest # older \<Rightarrow>
                        if run_status latest = ''completed''
                        then (if run_conclusion latest = ''success''
                              then ((True, ''CI passed: '' @ run_name latest @ '' (commit: '' @ commit_sha @ '')''), w3)
                              else ((False, ''CI failed: '' @ run_name latest @ '' - '' @ run_conclusion latest
                                              @ '' (commit: '' @ commit_sha @ '')''), w3))
                        else ((True, ''CI in progress: '' @ run_name latest @ '' (commit: '' @ commit_sha @ '')''), w3))))"

subsection \<open>The merge loop (lines 544-653)\<close>

text \<open>
  \<^verbatim>\<open>merged\<close> and \<^verbatim>\<open>skipped\<close> hold the queue's own PR dicts, on which the loop has stored
  \<^verbatim>\<open>pr['result']\<close> or \<^verbatim>\<open>pr['reason']\<close>: an entry is the PR paired with that string.
  One pass of the loop body ends in \<^verbatim>\<open>continue\<close> (or falls off its end) or in \<^verbatim>\<open>break\<close>.
\<close>

datatype flow = Continue | Break

type_synonym entry = "pr \<times> string"

type_synonym progress = "entry list \<times> entry list \<times> world"

text \<open>Lines 621-650: wait for the checks, merge, verify the trunk.\<close>

definition check_and_merge :: "host \<Rightarrow> config \<Rightarrow> pr \<Rightarrow> progress \<Rightarrow> flow \<times> progress" where
  "check_and_merge h args p st =
     (case st of (merged, skipped, w) \<Rightarrow>
        (case wait_for_checks h (number p) (timeout args) w of
           ((checks_ok, msg), w1) \<Rightarrow>
             if \<not> checks_ok then (Break, merged, skipped @ [(p, msg)], w1)
             else
               (case merge_pr h (number p) (dry_run args) w1 of
                  ((success, msg2), w2) \<Rightarrow>
                    if \<not> success then (Break, merged, skipped @ [(p, msg2)], w2)
                    else
                      (let merged2 = merged @ [(p, if \<not> dry_run args then ''merged'' else ''would merge'')]
                       in case verify_main_health h (base args) w2 of
                            ((healthy, msg3), w3) \<Rightarrow>
                              if \<not> healthy then (Break, merged2, skipped, w3)
                              else (Continue, merged2, skipped, w3)))))"

text \<open>Lines 603-619: conflicts and the review decision, on the details as they stand
  after a possible refresh (\<open>mergeable\<close> is never refreshed).\<close>

definition evaluate_readiness ::
  "host \<Rightarrow> config \<Rightarrow> pr \<Rightarrow> details option \<Rightarrow> string \<Rightarrow> string \<Rightarrow> progress \<Rightarrow> flow \<times> progress" where
  "evaluate_readiness h args p dets merge_state mergeable_now st =
     (case st of (merged, skipped, w) \<Rightarrow>
        if merge_state = ''DIRTY'' \<or> mergeable_now = ''CONFLICTING''
        then (Break, merged, skipped @ [(p, ''Merge conflicts - manual resolution required'')], w)
        else
          (case check_review_approval dets of
             (approved, msg) \<Rightarrow>
               if \<not> approved then (Break, merged, skipped @ [(p, msg)], w)
               else check_and_merge h args p (merged, skipped, w)))"

text \<open>Lines 549-601: fresh details, draft, already merged, branch behind.\<close>

definition process_pr :: "host \<Rightarrow> config \<Rightarrow> pr \<Rightarrow> progress \<Rightarrow> flow \<times> progress" where
  "process_pr h args p st =
     (case st of (merged, skipped, w) \<Rightarrow>
        (case get_pr_details h (number p) w of
           (dets, w1) \<Rightarrow>
             if dets = None then (Continue, merged, skipped @ [(p, ''Failed to fetch PR details'')], w1)
             else if get_or isDraft False dets then (Continue, merged, skipped @ [(p, ''PR is a draft'')], w1)
             else if get_or state [] dets = ''MERGED'' then (Continue, merged, skipped @ [(p, ''Already merged'')], w1)
             else
               (let merge_state = get_or mergeStateStatus ''UNKNOWN'' dets;
                    mergeable_now = get_or mergeable ''UNKNOWN'' dets
                in if merge_state = ''BEHIND''
                   then
                     (case update_pr_branch h (number p) w1 of
                        ((success, msg), w2) \<Rightarrow>
                          if \<not> success then (Break, merged, skipped @ [(p, msg)], w2)
                          else
                            (case get_pr_details h (number p) (sleep h 3 w2) of
                               (dets2, w3) \<Rightarrow>
                                 evaluate_readiness h args p dets2
                                   (get_or mergeStateStatus ''UNKNOWN'' dets2) mergeable_now (merged, skipped, w3)))
                   else evaluate_readiness h args p dets merge_state mergeable_now (merged, skipped, w1))))"

text \<open>\<^verbatim>\<open>for i, pr in enumerate(prs, 1)\<close>.\<close>

fun merge_loop :: "host \<Rightarrow> config \<Rightarrow> pr list \<Rightarrow> progress \<Rightarrow> progress" where
  "merge_loop h args [] st = st"
| "merge_loop h args (p # ps) st =
     (case process_pr h args p st of
        (Continue, st1) \<Rightarrow> merge_loop h args ps st1
      | (Break, st1) \<Rightarrow> st1)"

subsection \<open>The session (lines 453-685)\<close>

text \<open>Lines 536-538; \<^verbatim>\<open>prs[:n]\<close> with a negative \<^verbatim>\<open>n\<close> drops the last \<^verbatim>\<open>-n\<close> items.\<close>

definition apply_limit :: "int option \<Rightarrow> pr list \<Rightarrow> pr list" where
  "apply_limit lim prs =
     (case lim of
        None \<Rightarrow> prs
      | Some n \<Rightarrow>
          if n \<noteq> 0 \<and> int (length prs) > n
          then (if n \<ge> 0 then take (nat n) prs else take (nat (int (length prs) + n)) prs)
          else prs)"

text \<open>Lines 679-685.\<close>

definition exit_status :: "entry list \<Rightarrow> entry list \<Rightarrow> int" where
  "exit_status merged skipped =
     (if skipped \<noteq> [] \<and> merged = [] then 1
      else if skipped \<noteq> [] then 2
      else 0)"

text \<open>What a run leaves behind: the exit status, the queue handed to the report, the
  two outcome lists and the world.\<close>

record outcome =
  exit_code :: int
  queue :: "pr list"
  merged_prs :: "entry list"
  skipped_prs :: "entry list"
  final :: world

definition preflight :: "host \<Rightarrow> world \<Rightarrow> bool \<times> world" where
  "preflight h w =
     (case check_gh_auth h w of
        (ok1, w1) \<Rightarrow>
          if \<not> ok1 then (False, w1)
          else
            (case check_clean_working_tree h w1 of
               (ok2, w2) \<Rightarrow>
                 if \<not> ok2 then (False, w2)
                 else fetch_origin h w2))"

definition main :: "host \<Rightarrow> config \<Rightarrow> world \<Rightarrow> outcome" where
  "main h args w =
     (case preflight h w of
        (ok, w1) \<Rightarrow>
          if \<not> ok then \<lparr>exit_code = 1, queue = [], merged_prs = [], skipped_prs = [], final = w1\<rparr>
          else
            (case get_open_prs h (label args) (session args) (base args) w1 of
               (found, w2) \<Rightarrow>
                 if found = [] then \<lparr>exit_code = 0, queue = [], merged_prs = [], skipped_prs = [], final = w2\<rparr>
                 else
                   (let prs = apply_limit (limit args) found
                    in case merge_loop h args prs ([], [], w2) of
                         (merged, skipped, w3) \<Rightarrow>
                           \<lparr>exit_code = exit_status merged skipped, queue = prs,
                            merged_prs = merged, skipped_prs = skipped, final = w3\<rparr>)))"

subsection \<open>Scripted hosts\<close>

text \<open>Concrete hosts and sessions on which the model is run. \<open>calm_host\<close> answers every
  command at once and with success: no open PR, every PR clean and approved, no checks,
  no pipeline run.\<close>

definition ok :: proc where
  "ok = \<lparr>code = 0, stdout = [], stderr = []\<rparr>"

definition clean :: details where
  "clean = \<lparr>isDraft = False, state = ''OPEN'', mergeStateStatus = ''CLEAN'',
            mergeable = ''MERGEABLE'', reviewDecision = ''APPROVED''\<rparr>"

definition calm_host :: host where
  "calm_host =
     \<lparr>gh_auth_status = (\<lambda>w. ok), git_status = (\<lambda>w. ok), git_fetch = (\<lambda>w. ok),
      gh_pr_list = (\<lambda>w b l. Parsed []),
      gh_pr_view = (\<lambda>w n. Parsed clean),
      gh_pr_checks = (\<lambda>w n. Parsed []),
      gh_pr_update_branch = (\<lambda>w n. ok),
      gh_pr_merge = (\<lambda>w n. ok),
      git_rev_parse = (\<lambda>w r. ok\<lparr>stdout := ''0a1b2c3d4e5f ''\<rparr>),
      gh_run_list = (\<lambda>w b. Parsed []),
      took = (\<lambda>w a. 0)\<rparr>"

definition w0 :: world where
  "w0 = \<lparr>clock = 0, trace = []\<rparr>"

text \<open>The defaults of the argument parser.\<close>

definition default_args :: config where
  "default_args = \<lparr>label = ''workflow-ready'', session = None, base = ''main'',
                    limit = None, timeout = 30, dry_run = False\<rparr>"

definition pr_of :: "int \<Rightarrow> pr" where
  "pr_of n = \<lparr>number = n, title = ''change'', headRefName = ''topic'', labels = [''workflow-ready'']\<rparr>"

text \<open>The scenario of the specification: 101 merges cleanly, 102 is behind until its
  branch is updated, 103 has conflicts, 104 is never reached.\<close>

definition scenario_host :: host where
  "scenario_host = calm_host
     \<lparr>gh_pr_list := (\<lambda>w b l. Parsed [pr_of 103, pr_of 101, pr_of 104, pr_of 102]),
      gh_pr_view := (\<lambda>w n.
         if n = 102 \<and> PrUpdateBranch 102 \<notin> set (trace w) then Parsed (clean\<lparr>mergeStateStatus := ''BEHIND''\<rparr>)
         else if n = 103 then Parsed (clean\<lparr>mergeStateStatus := ''DIRTY''\<rparr>)
         else Parsed clean)\<rparr>"

text \<open>One failed check beside one that is still pending.\<close>

definition mixed_checks :: "check_run list" where
  "mixed_checks =
     [\<lparr>check_name = ''lint'', check_state = Some ''PENDING'', conclusion = None\<rparr>,
      \<lparr>check_name = ''unit'', check_state = Some ''COMPLETED'', conclusion = Some ''FAILURE''\<rparr>]"

text \<open>The scenario with every PR a draft, and with every PR clean and approved.\<close>

definition draft_host :: host where
  "draft_host = scenario_host\<lparr>gh_pr_view := (\<lambda>w n. Parsed (clean\<lparr>isDraft := True\<rparr>))\<rparr>"

definition ready_host :: host where
  "ready_host = scenario_host\<lparr>gh_pr_view := (\<lambda>w n. Parsed clean)\<rparr>"

text \<open>Every PR clean, with the given review decision.\<close>

definition review_host :: "string \<Rightarrow> host" where
  "review_host decision = scenario_host\<lparr>gh_pr_view := (\<lambda>w n. Parsed (clean\<lparr>reviewDecision := decision\<rparr>))\<rparr>"

text \<open>A host on which \<^verbatim>\<open>git rev-parse\<close> fails, and the scenario with a failed pipeline run on
  the trunk.\<close>

definition headless_host :: host where
  "headless_host = calm_host\<lparr>git_rev_parse := (\<lambda>w r. \<lparr>code = 128, stdout = [], stderr = ''fatal: bad revision''\<rparr>)\<rparr>"

definition broken_trunk_host :: host where
  "broken_trunk_host = scenario_host
     \<lparr>gh_run_list := (\<lambda>w b. Parsed [\<lparr>run_status = ''completed'', run_conclusion = ''failure'', run_name = ''CI''\<rparr>])\<rparr>"

text \<open>A host whose check query always fails.\<close>

definition mute_host :: host where
  "mute_host = calm_host\<lparr>gh_pr_checks := (\<lambda>w n. Failed ''HTTP 502'')\<rparr>"

subsection \<open>The queue of the specification\<close>

text \<open>The work queue in the words of the specification: of the listed change requests,
  those carrying the session label when one is given, ascending by number, cut to the
  limit when one is set.\<close>

definition spec_queue :: "pr list \<Rightarrow> string option \<Rightarrow> int option \<Rightarrow> pr list" where
  "spec_queue listing sess lim =
     (let matching = (case sess of None \<Rightarrow> listing | Some s \<Rightarrow> filter (\<lambda>p. s \<in> set (labels p)) listing);
          ordered = sort_key number matching
      in case lim of None \<Rightarrow> ordered | Some n \<Rightarrow> take (nat n) ordered)"

section \<open>Properties\<close>

declare str_nat.simps [simp del]
declare wait_loop.simps [simp del]

lemmas session_defs =
  main_def preflight_def check_gh_auth_def check_clean_working_tree_def fetch_origin_def
  get_open_prs_def apply_limit_def exit_status_def tick_def sleep_def strip_def isspace_def
  process_pr_def get_pr_details_def get_or_def evaluate_readiness_def check_review_approval_def
  check_and_merge_def wait_for_checks_def wait_loop.simps get_check_status_def merge_pr_def
  update_pr_branch_def verify_main_health_def

lemmas fixture_defs =
  ok_def clean_def calm_host_def w0_def default_args_def pr_of_def scenario_host_def mixed_checks_def
  draft_host_def ready_host_def

subsection \<open>Every pass of the loop body files the item in exactly one list\<close>

lemma check_and_merge_step:
  assumes "check_and_merge h args p (m, s, w) = (f, m', s', w')"
  shows "(\<exists>r. m' = m @ [(p, r)] \<and> s' = s) \<or> (\<exists>r. m' = m \<and> s' = s @ [(p, r)])"
  using assms unfolding check_and_merge_def
  by (auto simp: Let_def split: prod.splits if_splits)

lemma evaluate_readiness_step:
  assumes "evaluate_readiness h args p d ms mg (m, s, w) = (f, m', s', w')"
  shows "(\<exists>r. m' = m @ [(p, r)] \<and> s' = s) \<or> (\<exists>r. m' = m \<and> s' = s @ [(p, r)])"
  using assms unfolding evaluate_readiness_def
  by (auto split: prod.splits if_splits dest: check_and_merge_step)

lemma process_pr_step:
  assumes "process_pr h args p (m, s, w) = (f, m', s', w')"
  shows "(\<exists>r. m' = m @ [(p, r)] \<and> s' = s) \<or> (\<exists>r. m' = m \<and> s' = s @ [(p, r)])"
  using assms unfolding process_pr_def
  by (auto simp: Let_def split: prod.splits if_splits dest: evaluate_readiness_step)

text \<open>The loop files the first \<open>k\<close> items of the queue, each in one list, in queue order,
  and touches nothing after them.\<close>

lemma merge_loop_partition:
  assumes "merge_loop h args prs (m, s, w) = (m', s', w')"
  shows "\<exists>k ms ss. k \<le> length prs \<and> m' = m @ ms \<and> s' = s @ ss \<and>
           mset (map fst ms) + mset (map fst ss) = mset (take k prs) \<and>
           subseq (map fst ms) (take k prs) \<and> subseq (map fst ss) (take k prs)"
  using assms
proof (induction prs arbitrary: m s w)
  case Nil
  then show ?case by auto
next
  case (Cons p ps)
  obtain f m1 s1 w1 where step: "process_pr h args p (m, s, w) = (f, m1, s1, w1)"
    by (metis prod_cases4)
  from process_pr_step[OF step] consider
      (mer) r where "m1 = m @ [(p, r)]" "s1 = s"
    | (ski) r where "m1 = m" "s1 = s @ [(p, r)]"
    by blast
  then show ?case
  proof cases
    case mer
    show ?thesis
    proof (cases f)
      case Break
      with Cons.prems step mer have "m' = m @ [(p, r)]" "s' = s" by auto
      then show ?thesis
        by (intro exI[of _ "Suc 0"] exI[of _ "[(p, r)]"] exI[of _ "[]"]) auto
    next
      case Continue
      with Cons.prems step have "merge_loop h args ps (m1, s1, w1) = (m', s', w')" by auto
      from Cons.IH[OF this] obtain k ms ss where
        k: "k \<le> length ps" "m' = m1 @ ms" "s' = s1 @ ss"
           "mset (map fst ms) + mset (map fst ss) = mset (take k ps)"
           "subseq (map fst ms) (take k ps)" "subseq (map fst ss) (take k ps)"
        by blast
      show ?thesis
        using k mer
        by (intro exI[of _ "Suc k"] exI[of _ "(p, r) # ms"] exI[of _ "ss"]) auto
    qed
  next
    case ski
    show ?thesis
    proof (cases f)
      case Break
      with Cons.prems step ski have "m' = m" "s' = s @ [(p, r)]" by auto
      then show ?thesis
        by (intro exI[of _ "Suc 0"] exI[of _ "[]"] exI[of _ "[(p, r)]"]) auto
    next
      case Continue
      with Cons.prems step have "merge_loop h args ps (m1, s1, w1) = (m', s', w')" by auto
      from Cons.IH[OF this] obtain k ms ss where
        k: "k \<le> length ps" "m' = m1 @ ms" "s' = s1 @ ss"
           "mset (map fst ms) + mset (map fst ss) = mset (take k ps)"
           "subseq (map fst ms) (take k ps)" "subseq (map fst ss) (take k ps)"
        by blast
      show ?thesis
        using k ski
        by (intro exI[of _ "Suc k"] exI[of _ "ms"] exI[of _ "(p, r) # ss"]) auto
    qed
  qed
qed

text \<open>
  \<^bold>\<open>C1.\<close> In a queue of pairwise different items, the merged and the skipped list share no
  item, and together they hold exactly the first \<open>k\<close> items of the queue, where \<open>k\<close>
  counts the entries of both lists: every item of the queue from index \<open>k\<close> on is in
  neither list.
\<close>

theorem merged_skipped_prefix:
  assumes "distinct prs"
    and "merge_loop h args prs ([], [], w) = (merged, skipped, w')"
  shows "set (map fst merged) \<inter> set (map fst skipped) = {} \<and>
         length merged + length skipped \<le> length prs \<and>
         set (map fst merged) \<union> set (map fst skipped) = set (take (length merged + length skipped) prs) \<and>
         (\<forall>p \<in> set (drop (length merged + length skipped) prs).
            p \<notin> set (map fst merged) \<and> p \<notin> set (map fst skipped))"
proof -
  from merge_loop_partition[OF assms(2)] obtain k where
    k: "k \<le> length prs" "mset (map fst merged) + mset (map fst skipped) = mset (take k prs)"
    by auto
  from k(2) have ms: "mset (map fst merged @ map fst skipped) = mset (take k prs)" by simp
  have "size (mset (map fst merged @ map fst skipped)) = size (mset (take k prs))"
    by (simp only: ms)
  with k(1) have len: "length merged + length skipped = k" by simp
  from assms(1) have "distinct (take k prs)" by simp
  with ms have d: "distinct (map fst merged @ map fst skipped)"
    by (metis mset_eq_imp_distinct_iff)
  have "set (map fst merged @ map fst skipped) = set (take k prs)"
    using ms by (rule mset_eq_setD)
  then have u: "set (map fst merged) \<union> set (map fst skipped) = set (take k prs)" by simp
  from assms(1) have "set (take k prs) \<inter> set (drop k prs) = {}"
    by (rule set_take_disj_set_drop_if_distinct) simp
  with u have rest: "\<forall>p \<in> set (drop k prs). p \<notin> set (map fst merged) \<and> p \<notin> set (map fst skipped)"
    by blast
  from d have dj: "set (map fst merged) \<inter> set (map fst skipped) = {}" by simp
  show ?thesis unfolding len using dj k(1) u rest by (intro conjI)
qed


theorem merged_skipped_prefix_witness:
  "distinct (map pr_of [101, 102, 103, 104]) \<and>
   merge_loop scenario_host default_args (map pr_of [101, 102, 103, 104]) ([], [], w0)
     = ([(pr_of 101, ''merged''), (pr_of 102, ''merged'')],
        [(pr_of 103, ''Merge conflicts - manual resolution required'')],
        \<lparr>clock = 3, trace =
           [PrView 101, PrChecks 101, PrMerge 101, GitFetch, RevParse ''origin/main'', RunList ''main'',
            PrView 102, PrUpdateBranch 102, Sleep 3, PrView 102, PrChecks 102, PrMerge 102,
            GitFetch, RevParse ''origin/main'', RunList ''main'', PrView 103]\<rparr>) \<and>
   set (map fst [(pr_of 101, ''merged''), (pr_of 102, ''merged'')]) \<inter>
     set (map fst [(pr_of 103, ''Merge conflicts - manual resolution required'')]) = {} \<and>
   pr_of 104 \<notin> set (map fst [(pr_of 101, ''merged''), (pr_of 102, ''merged'')]) \<and>
   pr_of 104 \<notin> set (map fst [(pr_of 103, ''Merge conflicts - manual resolution required'')])"
proof -
  have d: "distinct (map pr_of [101, 102, 103, 104])"
    by (simp add: pr_of_def)
  have run: "merge_loop scenario_host default_args (map pr_of [101, 102, 103, 104]) ([], [], w0)
     = ([(pr_of 101, ''merged''), (pr_of 102, ''merged'')],
        [(pr_of 103, ''Merge conflicts - manual resolution required'')],
        \<lparr>clock = 3, trace =
           [PrView 101, PrChecks 101, PrMerge 101, GitFetch, RevParse ''origin/main'', RunList ''main'',
            PrView 102, PrUpdateBranch 102, Sleep 3, PrView 102, PrChecks 102, PrMerge 102,
            GitFetch, RevParse ''origin/main'', RunList ''main'', PrView 103]\<rparr>)"
    by (simp add: session_defs fixture_defs)
  note t = merged_skipped_prefix[OF d run]
  from t have a: "set (map fst [(pr_of 101, ''merged''), (pr_of 102, ''merged'')]) \<inter>
     set (map fst [(pr_of 103, ''Merge conflicts - manual resolution required'')]) = {}"
    by (rule conjunct1)
  have in_rest: "pr_of 104 \<in> set (drop (length [(pr_of 101, ''merged''), (pr_of 102, ''merged'')] +
      length [(pr_of 103, ''Merge conflicts - manual resolution required'')]) (map pr_of [101, 102, 103, 104]))"
    by simp
  from t have b: "\<forall>p \<in> set (drop (length [(pr_of 101, ''merged''), (pr_of 102, ''merged'')] +
      length [(pr_of 103, ''Merge conflicts - manual resolution required'')]) (map pr_of [101, 102, 103, 104])).
      p \<notin> set (map fst [(pr_of 101, ''merged''), (pr_of 102, ''merged'')]) \<and>
      p \<notin> set (map fst [(pr_of 103, ''Merge conflicts - manual resolution required'')])"
    by (elim conjE)
  from bspec[OF b in_rest] have
    c1: "pr_of 104 \<notin> set (map fst [(pr_of 101, ''merged''), (pr_of 102, ''merged'')])" and
    c2: "pr_of 104 \<notin> set (map fst [(pr_of 103, ''Merge conflicts - manual resolution required'')])"
    by (rule conjunct1, rule conjunct2)
  show ?thesis
    by (intro conjI) (rule d run a c1 c2)+
qed

text \<open>
  \<^bold>\<open>C5.\<close> When the check query is answered with a parsed list, the aggregate status is
  \<open>SUCCESS\<close> for the empty list; otherwise \<open>FAILURE\<close> when some conclusion is \<open>FAILURE\<close>,
  \<open>ERROR\<close>, \<open>CANCELLED\<close> or \<open>TIMED_OUT\<close>, whatever the states of the other checks;
  otherwise \<open>PENDING\<close> when some state is \<open>PENDING\<close> or \<open>IN_PROGRESS\<close>; otherwise
  \<open>SUCCESS\<close>.
\<close>

theorem get_check_status_aggregate:
  assumes "gh_pr_checks h w n = Parsed checks"
  shows "fst (fst (get_check_status h n w)) =
     (if checks = [] then ''SUCCESS''
      else if (\<exists>c \<in> set checks. conclusion c \<in> {Some ''FAILURE'', Some ''ERROR'', Some ''CANCELLED'', Some ''TIMED_OUT''})
      then ''FAILURE''
      else if (\<exists>c \<in> set checks. check_state c \<in> {Some ''PENDING'', Some ''IN_PROGRESS''})
      then ''PENDING''
      else ''SUCCESS'')"
proof (cases "checks = []")
  case True
  with assms show ?thesis by (simp add: get_check_status_def)
next
  case False
  with assms show ?thesis
    by (simp add: get_check_status_def Let_def list_ex_iff)
qed

theorem get_check_status_aggregate_witness:
  "gh_pr_checks (calm_host\<lparr>gh_pr_checks := (\<lambda>w n. Parsed mixed_checks)\<rparr>) w0 7 = Parsed mixed_checks \<and>
   fst (fst (get_check_status (calm_host\<lparr>gh_pr_checks := (\<lambda>w n. Parsed mixed_checks)\<rparr>) 7 w0)) = ''FAILURE''"
proof -
  have a: "gh_pr_checks (calm_host\<lparr>gh_pr_checks := (\<lambda>w n. Parsed mixed_checks)\<rparr>) w0 7 = Parsed mixed_checks"
    by simp
  have b: "fst (fst (get_check_status (calm_host\<lparr>gh_pr_checks := (\<lambda>w n. Parsed mixed_checks)\<rparr>) 7 w0)) = ''FAILURE''"
    unfolding get_check_status_aggregate[OF a] by (simp add: mixed_checks_def)
  show ?thesis by (intro conjI) (rule a b)+
qed

text \<open>
  \<^bold>\<open>C7.\<close> Wherever an item stands in the queue and whatever was filed before it, a
  failed detail fetch, a draft and an already merged PR each add the item to the skipped
  list with their reason, and the loop goes on with the rest of the queue.
\<close>

theorem nonfatal_skips_continue:
  "((gh_pr_view h w (number p) = Garbled \<or> (\<exists>e. gh_pr_view h w (number p) = Failed e)) \<longrightarrow>
      merge_loop h args (p # ps) (m, s, w) =
        merge_loop h args ps (m, s @ [(p, ''Failed to fetch PR details'')], tick h (PrView (number p)) w)) \<and>
   (\<forall>d. gh_pr_view h w (number p) = Parsed d \<and> isDraft d \<longrightarrow>
      merge_loop h args (p # ps) (m, s, w) =
        merge_loop h args ps (m, s @ [(p, ''PR is a draft'')], tick h (PrView (number p)) w)) \<and>
   (\<forall>d. gh_pr_view h w (number p) = Parsed d \<and> \<not> isDraft d \<and> state d = ''MERGED'' \<longrightarrow>
      merge_loop h args (p # ps) (m, s, w) =
        merge_loop h args ps (m, s @ [(p, ''Already merged'')], tick h (PrView (number p)) w))"
proof (intro conjI allI impI)
  assume "gh_pr_view h w (number p) = Garbled \<or> (\<exists>e. gh_pr_view h w (number p) = Failed e)"
  then have "process_pr h args p (m, s, w) =
      (Continue, m, s @ [(p, ''Failed to fetch PR details'')], tick h (PrView (number p)) w)"
    by (auto simp: process_pr_def get_pr_details_def)
  then show "merge_loop h args (p # ps) (m, s, w) =
        merge_loop h args ps (m, s @ [(p, ''Failed to fetch PR details'')], tick h (PrView (number p)) w)"
    by simp
next
  fix d
  assume "gh_pr_view h w (number p) = Parsed d \<and> isDraft d"
  then have "process_pr h args p (m, s, w) =
      (Continue, m, s @ [(p, ''PR is a draft'')], tick h (PrView (number p)) w)"
    by (simp add: process_pr_def get_pr_details_def get_or_def)
  then show "merge_loop h args (p # ps) (m, s, w) =
        merge_loop h args ps (m, s @ [(p, ''PR is a draft'')], tick h (PrView (number p)) w)"
    by simp
next
  fix d
  assume "gh_pr_view h w (number p) = Parsed d \<and> \<not> isDraft d \<and> state d = ''MERGED''"
  then have "process_pr h args p (m, s, w) =
      (Continue, m, s @ [(p, ''Already merged'')], tick h (PrView (number p)) w)"
    by (simp add: process_pr_def get_pr_details_def get_or_def)
  then show "merge_loop h args (p # ps) (m, s, w) =
        merge_loop h args ps (m, s @ [(p, ''Already merged'')], tick h (PrView (number p)) w)"
    by simp
qed

theorem nonfatal_skips_continue_witness:
  "gh_pr_view draft_host w0 (number (pr_of 101)) = Parsed (clean\<lparr>isDraft := True\<rparr>) \<and>
   isDraft (clean\<lparr>isDraft := True\<rparr>) \<and>
   merge_loop draft_host default_args (pr_of 101 # map pr_of [102, 103, 104]) ([], [], w0) =
     merge_loop draft_host default_args (map pr_of [102, 103, 104])
       ([], [] @ [(pr_of 101, ''PR is a draft'')], tick draft_host (PrView (number (pr_of 101))) w0) \<and>
   merge_loop draft_host default_args (pr_of 101 # map pr_of [102, 103, 104]) ([], [], w0) =
     ([], [(pr_of 101, ''PR is a draft''), (pr_of 102, ''PR is a draft''),
           (pr_of 103, ''PR is a draft''), (pr_of 104, ''PR is a draft'')],
      \<lparr>clock = 0, trace = [PrView 101, PrView 102, PrView 103, PrView 104]\<rparr>)"
proof -
  have a: "gh_pr_view draft_host w0 (number (pr_of 101)) = Parsed (clean\<lparr>isDraft := True\<rparr>)"
    by (simp add: fixture_defs)
  have b: "isDraft (clean\<lparr>isDraft := True\<rparr>)"
    by simp
  from a b have ab: "gh_pr_view draft_host w0 (number (pr_of 101)) = Parsed (clean\<lparr>isDraft := True\<rparr>) \<and>
      isDraft (clean\<lparr>isDraft := True\<rparr>)"
    by (rule conjI)
  note t = nonfatal_skips_continue[of draft_host w0 "pr_of 101" default_args "map pr_of [102, 103, 104]" "[]" "[]"]
  from t have "\<forall>d. gh_pr_view draft_host w0 (number (pr_of 101)) = Parsed d \<and> isDraft d \<longrightarrow>
      merge_loop draft_host default_args (pr_of 101 # map pr_of [102, 103, 104]) ([], [], w0) =
        merge_loop draft_host default_args (map pr_of [102, 103, 104])
          ([], [] @ [(pr_of 101, ''PR is a draft'')], tick draft_host (PrView (number (pr_of 101))) w0)"
    by (elim conjE)
  from this[rule_format, OF ab] have c:
    "merge_loop draft_host default_args (pr_of 101 # map pr_of [102, 103, 104]) ([], [], w0) =
        merge_loop draft_host default_args (map pr_of [102, 103, 104])
          ([], [] @ [(pr_of 101, ''PR is a draft'')], tick draft_host (PrView (number (pr_of 101))) w0)" .
  have e: "merge_loop draft_host default_args (pr_of 101 # map pr_of [102, 103, 104]) ([], [], w0) =
     ([], [(pr_of 101, ''PR is a draft''), (pr_of 102, ''PR is a draft''),
           (pr_of 103, ''PR is a draft''), (pr_of 104, ''PR is a draft'')],
      \<lparr>clock = 0, trace = [PrView 101, PrView 102, PrView 103, PrView 104]\<rparr>)"
    by (simp add: session_defs fixture_defs)
  show ?thesis
    by (intro conjI) (rule a b c e)+
qed

text \<open>
  \<^bold>\<open>C6.\<close> Once an item reaches the review gate with merge state not \<open>DIRTY\<close> and
  mergeability not \<open>CONFLICTING\<close>: a decision \<open>CHANGES_REQUESTED\<close> or \<open>REVIEW_REQUIRED\<close>
  files the item as skipped with its message and ends the loop with the rest of the queue
  untouched; a decision \<open>APPROVED\<close>, or no decision (the empty string, or no details at
  all), passes, and the item goes on to the check poller.
\<close>

theorem review_decision_gate:
  assumes "process_pr h args p st = evaluate_readiness h args p d ms mg (m, s, w)"
    and "ms \<noteq> ''DIRTY''" and "mg \<noteq> ''CONFLICTING''"
  shows "(get_or reviewDecision [] d = ''CHANGES_REQUESTED'' \<longrightarrow>
            \<not> fst (check_review_approval d) \<and>
            merge_loop h args (p # ps) st =
              (m, s @ [(p, ''Changes requested - needs update and re-approval'')], w)) \<and>
         (get_or reviewDecision [] d = ''REVIEW_REQUIRED'' \<longrightarrow>
            \<not> fst (check_review_approval d) \<and>
            merge_loop h args (p # ps) st =
              (m, s @ [(p, ''Review required - needs approval'')], w)) \<and>
         (get_or reviewDecision [] d = ''APPROVED'' \<or> get_or reviewDecision [] d = [] \<longrightarrow>
            fst (check_review_approval d) \<and>
            process_pr h args p st = check_and_merge h args p (m, s, w))"
proof (intro conjI impI)
  assume c: "get_or reviewDecision [] d = ''CHANGES_REQUESTED''"
  then show "\<not> fst (check_review_approval d)"
    by (simp add: check_review_approval_def)
  from c assms have "process_pr h args p st =
      (Break, m, s @ [(p, ''Changes requested - needs update and re-approval'')], w)"
    by (simp add: evaluate_readiness_def check_review_approval_def)
  then show "merge_loop h args (p # ps) st =
      (m, s @ [(p, ''Changes requested - needs update and re-approval'')], w)"
    by simp
next
  assume c: "get_or reviewDecision [] d = ''REVIEW_REQUIRED''"
  then show "\<not> fst (check_review_approval d)"
    by (simp add: check_review_approval_def)
  from c assms have "process_pr h args p st =
      (Break, m, s @ [(p, ''Review required - needs approval'')], w)"
    by (simp add: evaluate_readiness_def check_review_approval_def)
  then show "merge_loop h args (p # ps) st =
      (m, s @ [(p, ''Review required - needs approval'')], w)"
    by simp
next
  assume c: "get_or reviewDecision [] d = ''APPROVED'' \<or> get_or reviewDecision [] d = []"
  then show "fst (check_review_approval d)"
    by (auto simp: check_review_approval_def)
  from c assms show "process_pr h args p st = check_and_merge h args p (m, s, w)"
    by (auto simp: evaluate_readiness_def check_review_approval_def)
qed

theorem review_decision_gate_witness:
  "process_pr (review_host ''CHANGES_REQUESTED'') default_args (pr_of 101) ([], [], w0) =
     evaluate_readiness (review_host ''CHANGES_REQUESTED'') default_args (pr_of 101)
       (Some (clean\<lparr>reviewDecision := ''CHANGES_REQUESTED''\<rparr>)) ''CLEAN'' ''MERGEABLE''
       ([], [], \<lparr>clock = 0, trace = [PrView 101]\<rparr>) \<and>
   ''CLEAN'' \<noteq> ''DIRTY'' \<and> ''MERGEABLE'' \<noteq> ''CONFLICTING'' \<and>
   get_or reviewDecision [] (Some (clean\<lparr>reviewDecision := ''CHANGES_REQUESTED''\<rparr>)) = ''CHANGES_REQUESTED'' \<and>
   merge_loop (review_host ''CHANGES_REQUESTED'') default_args (pr_of 101 # [pr_of 102]) ([], [], w0) =
     ([], [] @ [(pr_of 101, ''Changes requested - needs update and re-approval'')],
      \<lparr>clock = 0, trace = [PrView 101]\<rparr>)"
proof -
  have a: "process_pr (review_host ''CHANGES_REQUESTED'') default_args (pr_of 101) ([], [], w0) =
     evaluate_readiness (review_host ''CHANGES_REQUESTED'') default_args (pr_of 101)
       (Some (clean\<lparr>reviewDecision := ''CHANGES_REQUESTED''\<rparr>)) ''CLEAN'' ''MERGEABLE''
       ([], [], \<lparr>clock = 0, trace = [PrView 101]\<rparr>)"
    by (simp add: process_pr_def get_pr_details_def get_or_def tick_def review_host_def fixture_defs Let_def)
  have b: "''CLEAN'' \<noteq> ''DIRTY''" by simp
  have c: "''MERGEABLE'' \<noteq> ''CONFLICTING''" by simp
  have e: "get_or reviewDecision [] (Some (clean\<lparr>reviewDecision := ''CHANGES_REQUESTED''\<rparr>)) = ''CHANGES_REQUESTED''"
    by (simp add: get_or_def)
  from review_decision_gate[OF a b c, of "[pr_of 102]"] e
  have f: "merge_loop (review_host ''CHANGES_REQUESTED'') default_args (pr_of 101 # [pr_of 102]) ([], [], w0) =
     ([], [] @ [(pr_of 101, ''Changes requested - needs update and re-approval'')],
      \<lparr>clock = 0, trace = [PrView 101]\<rparr>)"
    by blast
  show ?thesis
    by (intro conjI) (rule a b c e f)+
qed

text \<open>
  \<^bold>\<open>C4.\<close> After a passed preflight the exit status is 0 when every item of the queue was
  merged and none skipped, 1 when nothing was merged and something skipped, 2 when
  something was merged and something skipped.
\<close>

theorem exit_status_mapping:
  assumes "fst (preflight h w)" and "r = main h args w"
  shows "((\<forall>p \<in> set (queue r). p \<in> fst ` set (merged_prs r)) \<and> skipped_prs r = [] \<longrightarrow> exit_code r = 0) \<and>
         (merged_prs r = [] \<and> skipped_prs r \<noteq> [] \<longrightarrow> exit_code r = 1) \<and>
         (merged_prs r \<noteq> [] \<and> skipped_prs r \<noteq> [] \<longrightarrow> exit_code r = 2)"
proof -
  obtain w1 where p: "preflight h w = (True, w1)"
    using assms(1) by (cases "preflight h w") auto
  obtain found w2 where g: "get_open_prs h (label args) (session args) (base args) w1 = (found, w2)"
    by (cases "get_open_prs h (label args) (session args) (base args) w1") auto
  show ?thesis
  proof (cases "found = []")
    case True
    with p g assms(2) show ?thesis by (simp add: main_def)
  next
    case False
    obtain mg sk w3 where l: "merge_loop h args (apply_limit (limit args) found) ([], [], w2) = (mg, sk, w3)"
      by (metis prod_cases3)
    with False p g assms(2) have "exit_code r = exit_status mg sk" "merged_prs r = mg" "skipped_prs r = sk"
      by (simp_all add: main_def Let_def)
    then show ?thesis by (simp add: exit_status_def)
  qed
qed

theorem exit_status_mapping_witness:
  "fst (preflight scenario_host w0) \<and>
   merged_prs (main scenario_host default_args w0) \<noteq> [] \<and>
   skipped_prs (main scenario_host default_args w0) \<noteq> [] \<and>
   exit_code (main scenario_host default_args w0) = 2 \<and>
   fst (preflight draft_host w0) \<and>
   merged_prs (main draft_host default_args w0) = [] \<and>
   skipped_prs (main draft_host default_args w0) \<noteq> [] \<and>
   exit_code (main draft_host default_args w0) = 1 \<and>
   fst (preflight ready_host w0) \<and>
   skipped_prs (main ready_host default_args w0) = [] \<and>
   map fst (merged_prs (main ready_host default_args w0)) = queue (main ready_host default_args w0) \<and>
   exit_code (main ready_host default_args w0) = 0"
proof -
  have p1: "fst (preflight scenario_host w0)"
    by (simp add: session_defs fixture_defs)
  have p2: "fst (preflight draft_host w0)"
    by (simp add: session_defs fixture_defs)
  have p3: "fst (preflight ready_host w0)"
    by (simp add: session_defs fixture_defs)
  have m1: "merged_prs (main scenario_host default_args w0) \<noteq> []"
    and s1: "skipped_prs (main scenario_host default_args w0) \<noteq> []"
    by (simp_all add: session_defs fixture_defs)
  have m2: "merged_prs (main draft_host default_args w0) = []"
    and s2: "skipped_prs (main draft_host default_args w0) \<noteq> []"
    by (simp_all add: session_defs fixture_defs)
  have s3: "skipped_prs (main ready_host default_args w0) = []"
    and m3: "map fst (merged_prs (main ready_host default_args w0)) = queue (main ready_host default_args w0)"
    by (simp_all add: session_defs fixture_defs)
  from m3 have all3: "\<forall>p \<in> set (queue (main ready_host default_args w0)).
      p \<in> fst ` set (merged_prs (main ready_host default_args w0))"
    by (metis list.set_map)
  from exit_status_mapping[OF p1 refl, of default_args] m1 s1
  have e1: "exit_code (main scenario_host default_args w0) = 2" by blast
  from exit_status_mapping[OF p2 refl, of default_args] m2 s2
  have e2: "exit_code (main draft_host default_args w0) = 1" by blast
  from exit_status_mapping[OF p3 refl, of default_args] all3 s3
  have e3: "exit_code (main ready_host default_args w0) = 0" by blast
  show ?thesis
    by (intro conjI) (rule p1 p2 p3 m1 m2 m3 s1 s2 s3 e1 e2 e3)+
qed

text \<open>
  \<^bold>\<open>C9\<close> fails as stated: when the head commit of the trunk cannot be resolved the trunk
  is judged unhealthy, although no pipeline run exists.
\<close>

theorem trunk_health_counterexample:
  "gh_run_list headless_host (tick headless_host (RevParse ''origin/main'') (tick headless_host GitFetch w0)) ''main''
     = Parsed [] \<and>
   fst (verify_main_health headless_host ''main'' w0) = (False, ''Failed to get main HEAD'')"
  by (simp add: verify_main_health_def fetch_origin_def tick_def headless_host_def calm_host_def ok_def w0_def)

text \<open>
  \<^bold>\<open>C9, amended.\<close> The trunk is judged healthy exactly when its head commit resolves and
  the most recent pipeline run is not a completed run with a conclusion other than
  \<open>success\<close>: a failed or unparsable run query, an empty run list and a run that is not
  completed all count as healthy.
\<close>

theorem trunk_health_verdict:
  "fst (fst (verify_main_health h bs w)) =
     (let w1 = tick h GitFetch w;
          w2 = tick h (RevParse (''origin/'' @ bs)) w1
      in code (git_rev_parse h w1 (''origin/'' @ bs)) = 0 \<and>
         \<not> (\<exists>latest older. gh_run_list h w2 bs = Parsed (latest # older) \<and>
                run_status latest = ''completed'' \<and> run_conclusion latest \<noteq> ''success''))"
  by (simp add: verify_main_health_def fetch_origin_def Let_def split: reply.splits list.splits)

text \<open>
  \<^bold>\<open>C3\<close> fails as stated: the first item is merged, the most recent pipeline run of the
  trunk is a completed failure, the loop stops, and the skipped list stays empty.
\<close>

theorem unhealthy_trunk_counterexample:
  "merge_loop broken_trunk_host default_args (map pr_of [101, 102]) ([], [], w0) =
     ([(pr_of 101, ''merged'')], [],
      \<lparr>clock = 0, trace = [PrView 101, PrChecks 101, PrMerge 101, GitFetch, RevParse ''origin/main'', RunList ''main'']\<rparr>) \<and>
   fst (verify_main_health broken_trunk_host ''main'' \<lparr>clock = 0, trace = [PrView 101, PrChecks 101, PrMerge 101]\<rparr>) =
     (False, ''CI failed: CI - failure (commit: 0a1b2c3)'')"
  by (simp add: session_defs fixture_defs broken_trunk_host_def Let_def)

text \<open>
  \<^bold>\<open>C3, amended.\<close> When an item passes its checks, its merge succeeds and the trunk is then
  judged unhealthy, the loop stops with the rest of the queue untouched; the item is
  recorded in the merged list and nothing is added to the skipped list.
\<close>

theorem unhealthy_trunk_halts:
  assumes "process_pr h args p st = check_and_merge h args p (m, s, w)"
    and "wait_for_checks h (number p) (timeout args) w = ((True, msg1), w1)"
    and "merge_pr h (number p) (dry_run args) w1 = ((True, msg2), w2)"
    and "verify_main_health h (base args) w2 = ((False, msg3), w3)"
  shows "merge_loop h args (p # ps) st =
           (m @ [(p, if dry_run args then ''would merge'' else ''merged'')], s, w3)"
proof -
  from assms have "process_pr h args p st =
      (Break, m @ [(p, if dry_run args then ''would merge'' else ''merged'')], s, w3)"
    by (simp add: check_and_merge_def Let_def)
  then show ?thesis by simp
qed

theorem unhealthy_trunk_halts_witness:
  "process_pr broken_trunk_host default_args (pr_of 101) ([], [], w0) =
     check_and_merge broken_trunk_host default_args (pr_of 101) ([], [], \<lparr>clock = 0, trace = [PrView 101]\<rparr>) \<and>
   wait_for_checks broken_trunk_host (number (pr_of 101)) (timeout default_args) \<lparr>clock = 0, trace = [PrView 101]\<rparr> =
     ((True, ''All checks passed''), \<lparr>clock = 0, trace = [PrView 101, PrChecks 101]\<rparr>) \<and>
   merge_pr broken_trunk_host (number (pr_of 101)) (dry_run default_args) \<lparr>clock = 0, trace = [PrView 101, PrChecks 101]\<rparr> =
     ((True, ''PR merged successfully''), \<lparr>clock = 0, trace = [PrView 101, PrChecks 101, PrMerge 101]\<rparr>) \<and>
   verify_main_health broken_trunk_host (base default_args) \<lparr>clock = 0, trace = [PrView 101, PrChecks 101, PrMerge 101]\<rparr> =
     ((False, ''CI failed: CI - failure (commit: 0a1b2c3)''),
      \<lparr>clock = 0, trace = [PrView 101, PrChecks 101, PrMerge 101, GitFetch, RevParse ''origin/main'', RunList ''main'']\<rparr>) \<and>
   merge_loop broken_trunk_host default_args (pr_of 101 # [pr_of 102]) ([], [], w0) =
     ([] @ [(pr_of 101, if dry_run default_args then ''would merge'' else ''merged'')], [],
      \<lparr>clock = 0, trace = [PrView 101, PrChecks 101, PrMerge 101, GitFetch, RevParse ''origin/main'', RunList ''main'']\<rparr>)"
proof -
  have a: "process_pr broken_trunk_host default_args (pr_of 101) ([], [], w0) =
     check_and_merge broken_trunk_host default_args (pr_of 101) ([], [], \<lparr>clock = 0, trace = [PrView 101]\<rparr>)"
    by (simp add: process_pr_def evaluate_readiness_def check_review_approval_def get_pr_details_def
        get_or_def tick_def Let_def fixture_defs broken_trunk_host_def)
  have b: "wait_for_checks broken_trunk_host (number (pr_of 101)) (timeout default_args) \<lparr>clock = 0, trace = [PrView 101]\<rparr> =
     ((True, ''All checks passed''), \<lparr>clock = 0, trace = [PrView 101, PrChecks 101]\<rparr>)"
    by (simp add: wait_for_checks_def wait_loop.simps get_check_status_def tick_def Let_def
        fixture_defs broken_trunk_host_def)
  have c: "merge_pr broken_trunk_host (number (pr_of 101)) (dry_run default_args) \<lparr>clock = 0, trace = [PrView 101, PrChecks 101]\<rparr> =
     ((True, ''PR merged successfully''), \<lparr>clock = 0, trace = [PrView 101, PrChecks 101, PrMerge 101]\<rparr>)"
    by (simp add: merge_pr_def tick_def Let_def fixture_defs broken_trunk_host_def)
  have e: "verify_main_health broken_trunk_host (base default_args) \<lparr>clock = 0, trace = [PrView 101, PrChecks 101, PrMerge 101]\<rparr> =
     ((False, ''CI failed: CI - failure (commit: 0a1b2c3)''),
      \<lparr>clock = 0, trace = [PrView 101, PrChecks 101, PrMerge 101, GitFetch, RevParse ''origin/main'', RunList ''main'']\<rparr>)"
    by (simp add: verify_main_health_def fetch_origin_def strip_def isspace_def tick_def Let_def
        fixture_defs broken_trunk_host_def)
  note f = unhealthy_trunk_halts[OF a b c e, of "[pr_of 102]"]
  show ?thesis
    by (intro conjI) (rule a b c e f)+
qed

text \<open>Polling: a query that fails or prints unparsable output is classified \<open>UNKNOWN\<close>.\<close>

lemma get_check_status_unknown:
  assumes "gh_pr_checks h w n = Garbled \<or> (\<exists>e. gh_pr_checks h w n = Failed e)"
  shows "get_check_status h n w = ((''UNKNOWN'', []), tick h (PrChecks n) w)"
  using assms by (auto simp: get_check_status_def)

lemma wait_loop_requery:
  assumes "gh_pr_checks h w n = Garbled \<or> (\<exists>e. gh_pr_checks h w n = Failed e)"
    and "\<not> clock w - st > tm * 60"
  shows "wait_loop h n tm st w = wait_loop h n tm st (sleep h 30 (tick h (PrChecks n) w))"
  using assms(2) by (subst wait_loop.simps) (simp add: get_check_status_unknown[OF assms(1)])

lemma wait_loop_all_unknown:
  assumes "\<forall>w'. gh_pr_checks h w' n = Garbled \<or> (\<exists>e. gh_pr_checks h w' n = Failed e)"
  shows "fst (wait_loop h n tm st w) = (False, ''Timeout after '' @ str tm @ '' minutes waiting for checks'')"
  using assms
proof (induction h n tm st w rule: wait_loop.induct)
  case (1 h n tm st w)
  have bad: "gh_pr_checks h w n = Garbled \<or> (\<exists>e. gh_pr_checks h w n = Failed e)"
    using "1.prems" by blast
  show ?case
  proof (cases "clock w - st > tm * 60")
    case True
    then show ?thesis by (subst wait_loop.simps) simp
  next
    case False
    have "fst (wait_loop h n tm st (sleep h 30 (tick h (PrChecks n) w))) =
        (False, ''Timeout after '' @ str tm @ '' minutes waiting for checks'')"
      by (rule "1.IH"[OF refl refl False get_check_status_unknown[OF bad, symmetric] refl]) (simp_all add: "1.prems")
    then show ?thesis
      by (simp add: wait_loop_requery[OF bad False])
  qed
qed

text \<open>
  \<^bold>\<open>C10.\<close> A check query that fails or prints unparsable output is classified \<open>UNKNOWN\<close>,
  neither \<open>SUCCESS\<close> nor \<open>FAILURE\<close>; within the timeout the poller then sleeps 30
  seconds and queries again, so the error itself never ends the wait. When every query
  fails this way, the wait ends, and ends with the timeout failure.
\<close>

theorem query_errors_surface_as_timeout:
  "((gh_pr_checks h w n = Garbled \<or> (\<exists>e. gh_pr_checks h w n = Failed e)) \<longrightarrow>
      fst (fst (get_check_status h n w)) = ''UNKNOWN'' \<and>
      (\<not> clock w - st > tm * 60 \<longrightarrow>
         wait_loop h n tm st w = wait_loop h n tm st (sleep h 30 (tick h (PrChecks n) w)))) \<and>
   ((\<forall>w'. gh_pr_checks h w' n = Garbled \<or> (\<exists>e. gh_pr_checks h w' n = Failed e)) \<longrightarrow>
      fst (wait_for_checks h n tm w) =
        (False, ''Timeout after '' @ str tm @ '' minutes waiting for checks''))"
proof (intro conjI impI)
  assume bad: "gh_pr_checks h w n = Garbled \<or> (\<exists>e. gh_pr_checks h w n = Failed e)"
  show "fst (fst (get_check_status h n w)) = ''UNKNOWN''"
    by (simp add: get_check_status_unknown[OF bad])
  assume "\<not> clock w - st > tm * 60"
  with bad show "wait_loop h n tm st w = wait_loop h n tm st (sleep h 30 (tick h (PrChecks n) w))"
    by (rule wait_loop_requery)
next
  assume "\<forall>w'. gh_pr_checks h w' n = Garbled \<or> (\<exists>e. gh_pr_checks h w' n = Failed e)"
  then show "fst (wait_for_checks h n tm w) =
      (False, ''Timeout after '' @ str tm @ '' minutes waiting for checks'')"
    unfolding wait_for_checks_def by (rule wait_loop_all_unknown)
qed

theorem query_errors_surface_as_timeout_witness:
  "(\<forall>w'. gh_pr_checks mute_host w' 7 = Garbled \<or> (\<exists>e. gh_pr_checks mute_host w' 7 = Failed e)) \<and>
   fst (wait_for_checks mute_host 7 1 w0) = (False, ''Timeout after '' @ str 1 @ '' minutes waiting for checks'') \<and>
   wait_for_checks mute_host 7 1 w0 =
     ((False, ''Timeout after 1 minutes waiting for checks''),
      \<lparr>clock = 90, trace = [PrChecks 7, Sleep 30, PrChecks 7, Sleep 30, PrChecks 7, Sleep 30]\<rparr>)"
proof -
  have a: "\<forall>w'. gh_pr_checks mute_host w' 7 = Garbled \<or> (\<exists>e. gh_pr_checks mute_host w' 7 = Failed e)"
    by (simp add: mute_host_def)
  from query_errors_surface_as_timeout[of mute_host w0 7 1 0] a
  have b: "fst (wait_for_checks mute_host 7 1 w0) =
      (False, ''Timeout after '' @ str 1 @ '' minutes waiting for checks'')"
    by blast
  have c: "wait_for_checks mute_host 7 1 w0 =
     ((False, ''Timeout after 1 minutes waiting for checks''),
      \<lparr>clock = 90, trace = [PrChecks 7, Sleep 30, PrChecks 7, Sleep 30, PrChecks 7, Sleep 30]\<rparr>)"
    by (simp add: wait_for_checks_def wait_loop.simps get_check_status_def tick_def sleep_def
        str_def str_nat.simps mute_host_def calm_host_def w0_def)
  show ?thesis
    by (intro conjI) (rule a b c)+
qed

text \<open>
  \<^bold>\<open>C8.\<close> With a label filter, a session filter that is absent or non-empty and a limit
  that is absent or positive, the queue of a session is the specification's queue over
  what the host lists for the open PRs of the base branch with that label; it ascends by
  number; and the merged and the skipped list each keep the order of the queue.
\<close>

theorem work_queue_order:
  assumes "preflight h w = (True, w1)"
    and "label args \<noteq> []"
    and "session args \<noteq> Some []"
    and "limit args = None \<or> (\<exists>n. limit args = Some n \<and> 0 < n)"
    and "gh_pr_list h w1 (base args) (Some (label args)) = Parsed listing"
    and "r = main h args w"
  shows "queue r = spec_queue listing (session args) (limit args) \<and>
         sorted (map number (queue r)) \<and>
         subseq (map fst (merged_prs r)) (queue r) \<and>
         subseq (map fst (skipped_prs r)) (queue r)"
proof -
  define matching where
    "matching = (case session args of None \<Rightarrow> listing | Some s \<Rightarrow> filter (\<lambda>p. s \<in> set (labels p)) listing)"
  define found where "found = sort_key number matching"
  define w2 where "w2 = tick h (PrList (base args) (Some (label args))) w1"
  have disc: "get_open_prs h (label args) (session args) (base args) w1 = (found, w2)"
    using assms(2,3,5)
    by (auto simp: get_open_prs_def Let_def found_def matching_def w2_def list_ex_iff
        split: option.splits)
  have lim: "apply_limit (limit args) found = spec_queue listing (session args) (limit args)"
    using assms(4)
    by (auto simp: apply_limit_def spec_queue_def Let_def found_def matching_def)
  have srt: "sorted (map number (spec_queue listing (session args) (limit args)))"
    by (auto simp: spec_queue_def Let_def sorted_wrt_take take_map[symmetric] simp del: take_map
        split: option.splits)
  show ?thesis
  proof (cases "found = []")
    case True
    with lim have "spec_queue listing (session args) (limit args) = []"
      by (auto simp: apply_limit_def split: option.splits if_splits)
    with True disc assms(1,6) show ?thesis
      by (simp add: main_def)
  next
    case False
    obtain mg sk w3 where l: "merge_loop h args (apply_limit (limit args) found) ([], [], w2) = (mg, sk, w3)"
      by (metis prod_cases3)
    from merge_loop_partition[OF l] obtain k where
      sub: "subseq (map fst mg) (take k (apply_limit (limit args) found))"
           "subseq (map fst sk) (take k (apply_limit (limit args) found))"
      by auto
    have tk: "subseq (take k (apply_limit (limit args) found)) (apply_limit (limit args) found)"
      by (metis append_take_drop_id prefix_imp_subseq prefixI)
    from False disc assms(1,6) l have r:
      "queue r = apply_limit (limit args) found" "merged_prs r = mg" "skipped_prs r = sk"
      by (simp_all add: main_def Let_def)
    from sub tk have "subseq (map fst mg) (apply_limit (limit args) found)"
      "subseq (map fst sk) (apply_limit (limit args) found)"
      by (blast intro: subseq_order.trans)+
    with r lim srt show ?thesis by simp
  qed
qed

theorem work_queue_order_witness:
  "preflight scenario_host w0 = (True, \<lparr>clock = 0, trace = [AuthStatus, GitStatus, GitFetch]\<rparr>) \<and>
   label (default_args\<lparr>limit := Some 3\<rparr>) \<noteq> [] \<and>
   session (default_args\<lparr>limit := Some 3\<rparr>) \<noteq> Some [] \<and>
   limit (default_args\<lparr>limit := Some 3\<rparr>) = Some 3 \<and> (0 :: int) < 3 \<and>
   gh_pr_list scenario_host \<lparr>clock = 0, trace = [AuthStatus, GitStatus, GitFetch]\<rparr>
     (base (default_args\<lparr>limit := Some 3\<rparr>)) (Some (label (default_args\<lparr>limit := Some 3\<rparr>)))
     = Parsed [pr_of 103, pr_of 101, pr_of 104, pr_of 102] \<and>
   queue (main scenario_host (default_args\<lparr>limit := Some 3\<rparr>) w0) =
     spec_queue [pr_of 103, pr_of 101, pr_of 104, pr_of 102]
       (session (default_args\<lparr>limit := Some 3\<rparr>)) (limit (default_args\<lparr>limit := Some 3\<rparr>)) \<and>
   sorted (map number (queue (main scenario_host (default_args\<lparr>limit := Some 3\<rparr>) w0))) \<and>
   queue (main scenario_host (default_args\<lparr>limit := Some 3\<rparr>) w0) = [pr_of 101, pr_of 102, pr_of 103] \<and>
   map fst (merged_prs (main scenario_host (default_args\<lparr>limit := Some 3\<rparr>) w0)) = [pr_of 101, pr_of 102] \<and>
   map fst (skipped_prs (main scenario_host (default_args\<lparr>limit := Some 3\<rparr>) w0)) = [pr_of 103]"
proof -
  have a: "preflight scenario_host w0 = (True, \<lparr>clock = 0, trace = [AuthStatus, GitStatus, GitFetch]\<rparr>)"
    by (simp add: session_defs fixture_defs)
  have b: "label (default_args\<lparr>limit := Some 3\<rparr>) \<noteq> []"
    by (simp add: default_args_def)
  have c: "session (default_args\<lparr>limit := Some 3\<rparr>) \<noteq> Some []"
    by (simp add: default_args_def)
  have e1: "limit (default_args\<lparr>limit := Some 3\<rparr>) = Some 3" by simp
  have e2: "(0 :: int) < 3" by simp
  from e1 e2 have e: "limit (default_args\<lparr>limit := Some 3\<rparr>) = None \<or>
      (\<exists>n. limit (default_args\<lparr>limit := Some 3\<rparr>) = Some n \<and> 0 < n)"
    by blast
  have f: "gh_pr_list scenario_host \<lparr>clock = 0, trace = [AuthStatus, GitStatus, GitFetch]\<rparr>
     (base (default_args\<lparr>limit := Some 3\<rparr>)) (Some (label (default_args\<lparr>limit := Some 3\<rparr>)))
     = Parsed [pr_of 103, pr_of 101, pr_of 104, pr_of 102]"
    by (simp add: scenario_host_def)
  note t = work_queue_order[OF a b c e f refl]
  from t have g: "queue (main scenario_host (default_args\<lparr>limit := Some 3\<rparr>) w0) =
     spec_queue [pr_of 103, pr_of 101, pr_of 104, pr_of 102]
       (session (default_args\<lparr>limit := Some 3\<rparr>)) (limit (default_args\<lparr>limit := Some 3\<rparr>))"
    by (rule conjunct1)
  from t have i: "sorted (map number (queue (main scenario_host (default_args\<lparr>limit := Some 3\<rparr>) w0)))"
    by (elim conjE)
  have j: "queue (main scenario_host (default_args\<lparr>limit := Some 3\<rparr>) w0) = [pr_of 101, pr_of 102, pr_of 103]"
    and k: "map fst (merged_prs (main scenario_host (default_args\<lparr>limit := Some 3\<rparr>) w0)) = [pr_of 101, pr_of 102]"
    and l: "map fst (skipped_prs (main scenario_host (default_args\<lparr>limit := Some 3\<rparr>) w0)) = [pr_of 103]"
    by (simp_all add: session_defs fixture_defs)
  show ?thesis
    by (intro conjI) (rule a b c e1 e2 f g i j k l)+
qed

text \<open>
  \<^bold>\<open>C2\<close> on a dry run of the specification's scenario: both reachable items are recorded
  as \<open>would merge\<close> and no merge command is issued, but the branch of PR 102, which is
  behind, is updated on the host.
\<close>

theorem dry_run_updates_branch:
  "merged_prs (main scenario_host (default_args\<lparr>dry_run := True\<rparr>) w0) =
     [(pr_of 101, ''would merge''), (pr_of 102, ''would merge'')] \<and>
   trace (final (main scenario_host (default_args\<lparr>dry_run := True\<rparr>) w0)) =
     [AuthStatus, GitStatus, GitFetch, PrList ''main'' (Some ''workflow-ready''),
      PrView 101, PrChecks 101, GitFetch, RevParse ''origin/main'', RunList ''main'',
      PrView 102, PrUpdateBranch 102, Sleep 3, PrView 102, PrChecks 102,
      GitFetch, RevParse ''origin/main'', RunList ''main'', PrView 103] \<and>
   PrUpdateBranch 102 \<in> set (trace (final (main scenario_host (default_args\<lparr>dry_run := True\<rparr>) w0)))"
  by (simp add: session_defs fixture_defs)

end
